theory Spec2Isabelle
  imports Main "HOL-Library.Char_ord" "HOL-Library.List_Lexorder"
begin

section \<open>Document values\<close>

text \<open>
  The documents handled by \<^verbatim>\<open>Generate-ConfigurationDocumentation.py\<close> are what
  \<^verbatim>\<open>json.loads\<close> returns: \<^verbatim>\<open>None\<close>, \<^verbatim>\<open>bool\<close>, \<^verbatim>\<open>int\<close>, \<^verbatim>\<open>float\<close>, \<^verbatim>\<open>str\<close>,
  \<^verbatim>\<open>list\<close> and \<^verbatim>\<open>dict\<close> with string keys. A \<^verbatim>\<open>dict\<close> keeps its insertion order, which
  \<^verbatim>\<open>.values()\<close> and \<^verbatim>\<open>.items()\<close> follow, so it is an association list; \<^verbatim>\<open>.get\<close>
  reads the first binding of a key (a Python \<^verbatim>\<open>dict\<close> has one binding per key).

  Python strings are sequences of code points. They are modelled by \<^typ>\<open>string\<close>, one
  \<^typ>\<open>char\<close> per code point, which covers the code points below 256; \<^const>\<open>length\<close>
  is then Python's \<^verbatim>\<open>len\<close>.

  The type \<open>'f\<close> stands for Python's \<^verbatim>\<open>float\<close>. How the interpreter prints a float, and
  how it prints a nested container with \<^verbatim>\<open>str()\<close>, is part of the interpreter and not of
  this program: those functions are the fields of a \<open>host\<close> record that the model takes
  as an argument.
\<close>

datatype 'f json =
    JNull
  | JBool bool
  | JInt int
  | JFloat 'f
  | JStr string
  | JArr "'f json list"
  | JObj "(string \<times> 'f json) list"

record 'f host =
  float_str :: "'f \<Rightarrow> string"
  float_json :: "'f \<Rightarrow> string"
  float_truthy :: "'f \<Rightarrow> bool"
  container_repr :: "'f json \<Rightarrow> string"

datatype py_error = TypeError | AttributeError

type_synonym 'f pair = "'f json \<times> 'f json"

definition dict_get_default :: "(string \<times> 'a) list \<Rightarrow> string \<Rightarrow> 'a \<Rightarrow> 'a" where
  "dict_get_default d k dflt = (case map_of d k of None \<Rightarrow> dflt | Some v \<Rightarrow> v)"

text \<open>Truth value of a document value, as \<^verbatim>\<open>if x:\<close> takes it.\<close>

fun truthy :: "'f host \<Rightarrow> 'f json \<Rightarrow> bool" where
  "truthy h JNull = False"
| "truthy h (JBool b) = b"
| "truthy h (JInt i) = (i \<noteq> 0)"
| "truthy h (JFloat f) = float_truthy h f"
| "truthy h (JStr s) = (s \<noteq> [])"
| "truthy h (JArr xs) = (xs \<noteq> [])"
| "truthy h (JObj kvs) = (kvs \<noteq> [])"

section \<open>Printing integers and values\<close>

definition digit_char :: "nat \<Rightarrow> char" where
  "digit_char d = char_of (48 + d)"

fun str_nat :: "nat \<Rightarrow> string" where
  "str_nat n = (if n < 10 then [digit_char n] else str_nat (n div 10) @ [digit_char (n mod 10)])"

declare str_nat.simps [simp del]

definition str_int :: "int \<Rightarrow> string" where
  "str_int i = (if i < 0 then CHR ''-'' # str_nat (nat (- i)) else str_nat (nat i))"

text \<open>\<^verbatim>\<open>str(x)\<close>, which is also what an f-string writes for \<^verbatim>\<open>{x}\<close>.\<close>

fun py_str :: "'f host \<Rightarrow> 'f json \<Rightarrow> string" where
  "py_str h JNull = ''None''"
| "py_str h (JBool b) = (if b then ''True'' else ''False'')"
| "py_str h (JInt i) = str_int i"
| "py_str h (JFloat f) = float_str h f"
| "py_str h (JStr s) = s"
| "py_str h (JArr xs) = container_repr h (JArr xs)"
| "py_str h (JObj kvs) = container_repr h (JObj kvs)"

subsection \<open>\<^verbatim>\<open>json.dumps\<close> with its default arguments\<close>

definition hex_digit :: "nat \<Rightarrow> char" where
  "hex_digit d = (if d < 10 then char_of (48 + d) else char_of (87 + d))"

text \<open>
  \<^verbatim>\<open>ensure_ascii\<close> is on: the quote and the backslash are escaped, the control
  characters with a short escape use it, every other character outside
  \<^verbatim>\<open>' '..'~'\<close> is written \<^verbatim>\<open>\u00xx\<close>.
\<close>

definition json_escape_char :: "char \<Rightarrow> string" where
  "json_escape_char c =
     (let n = (of_char c :: nat) in
      if n = 34 then [CHR 0x5C, CHR 0x22]
      else if n = 92 then [CHR 0x5C, CHR 0x5C]
      else if n = 10 then [CHR 0x5C, CHR ''n'']
      else if n = 13 then [CHR 0x5C, CHR ''r'']
      else if n = 9 then [CHR 0x5C, CHR ''t'']
      else if n = 8 then [CHR 0x5C, CHR ''b'']
      else if n = 12 then [CHR 0x5C, CHR ''f'']
      else if n < 32 \<or> 126 < n
        then [CHR 0x5C, CHR ''u'', CHR ''0'', CHR ''0'', hex_digit (n div 16), hex_digit (n mod 16)]
      else [c])"

definition json_quote :: "string \<Rightarrow> string" where
  "json_quote s = CHR 0x22 # concat (map json_escape_char s) @ [CHR 0x22]"

fun join :: "string \<Rightarrow> string list \<Rightarrow> string" where
  "join sep [] = []"
| "join sep [x] = x"
| "join sep (x # y # ys) = x @ sep @ join sep (y # ys)"

primrec json_dumps :: "'f host \<Rightarrow> 'f json \<Rightarrow> string" where
  "json_dumps h JNull = ''null''"
| "json_dumps h (JBool b) = (if b then ''true'' else ''false'')"
| "json_dumps h (JInt i) = str_int i"
| "json_dumps h (JFloat f) = float_json h f"
| "json_dumps h (JStr s) = json_quote s"
| "json_dumps h (JArr xs) = ''['' @ join '', '' (map (json_dumps h) xs) @ '']''"
| "json_dumps h (JObj kvs) =
     ''{'' @ join '', '' (map (\<lambda>(k, s). json_quote k @ '': '' @ s)
                            (map (map_prod id (json_dumps h)) kvs)) @ ''}''"

section \<open>ValueNormalizer\<close>

text \<open>
  \<^verbatim>\<open>simplify_value\<close> (lines 118-128). The result is a Python value; that it is a
  \<^verbatim>\<open>str\<close> on every branch is a property, not a type. \<^verbatim>\<open>bool\<close> is a subclass of
  \<^verbatim>\<open>int\<close>, so the second test takes booleans too.
\<close>

fun simplify_value :: "'f host \<Rightarrow> 'f json \<Rightarrow> 'f json" where
  "simplify_value h JNull = JStr ''''"
| "simplify_value h (JBool b) = JStr (py_str h (JBool b))"
| "simplify_value h (JInt i) = JStr (py_str h (JInt i))"
| "simplify_value h (JFloat f) = JStr (py_str h (JFloat f))"
| "simplify_value h (JStr s) = (if length s > 120 then JStr (take 117 s @ ''...'') else JStr s)"
| "simplify_value h (JArr xs) = JStr (json_dumps h (JArr xs))"
| "simplify_value h (JObj kvs) = JStr (json_dumps h (JObj kvs))"

text \<open>String operations of Python used below.\<close>

definition startswith :: "string \<Rightarrow> string \<Rightarrow> bool" where
  "startswith s p = (take (length p) s = p)"

definition endswith :: "string \<Rightarrow> string \<Rightarrow> bool" where
  "endswith s p = (length p \<le> length s \<and> drop (length s - length p) s = p)"

text \<open>
  \<^verbatim>\<open>str.lower\<close> on the code points below 256: the ASCII capitals and the Latin-1
  capitals (\<^verbatim>\<open>0xC0..0xDE\<close> but the multiplication sign) move up by 32.
\<close>

definition lower_char :: "char \<Rightarrow> char" where
  "lower_char c =
     (let n = (of_char c :: nat) in
      if (65 \<le> n \<and> n \<le> 90) \<or> (192 \<le> n \<and> n \<le> 222 \<and> n \<noteq> 215)
      then char_of (n + 32) else c)"

definition py_lower :: "string \<Rightarrow> string" where
  "py_lower s = map lower_char s"

text \<open>\<^verbatim>\<open>s.split(c)\<close> for a one-character separator: never an empty list.\<close>

fun py_split :: "char \<Rightarrow> string \<Rightarrow> string list" where
  "py_split c [] = [[]]"
| "py_split c (x # xs) =
     (if x = c then [] # py_split c xs
      else (case py_split c xs of
              [] \<Rightarrow> [[x]]
            | p # ps \<Rightarrow> (x # p) # ps))"

definition last_segment :: "string \<Rightarrow> string" where
  "last_segment s = last (py_split CHR ''.'' s)"

text \<open>\<^verbatim>\<open>s.lstrip('_')\<close>.\<close>

definition lstrip_underscore :: "string \<Rightarrow> string" where
  "lstrip_underscore s = dropWhile (\<lambda>c. c = CHR ''_'') s"

text \<open>
  \<^verbatim>\<open>re.search(r"{{.*?}}", val)\<close>: somewhere in the string two opening braces, then
  characters other than a newline (the dot does not match a newline), then two closing
  braces. \<open>closes\<close> scans for the closing braces from the position after the opening
  ones.
\<close>

fun closes :: "string \<Rightarrow> bool" where
  "closes [] = False"
| "closes (c # cs) =
     (if startswith (c # cs) ''}}'' then True
      else if c = CHR 0x0A then False
      else closes cs)"

fun placeholder_search :: "string \<Rightarrow> bool" where
  "placeholder_search [] = False"
| "placeholder_search (c # cs) =
     ((startswith (c # cs) ''{{'' \<and> closes (drop 1 cs)) \<or> placeholder_search cs)"

definition BOOLEAN_SUFFIXES :: "(string \<times> string) list" where
  "BOOLEAN_SUFFIXES = [(''_true'', ''True''), (''_false'', ''False'')]"

text \<open>
  The loop over \<^verbatim>\<open>BOOLEAN_SUFFIXES.items()\<close> (lines 150-158): \<open>Some mapped\<close> when an
  iteration returns, \<open>None\<close> when the loop runs to its end.
\<close>

text \<open>
  Line 154, the test that relates the part before the suffix to the key:
  \<^verbatim>\<open>key.startswith(prefix_part.split('.')[-1]) or prefix_part.endswith(key.split('.')[-1])\<close>.
\<close>

definition segment_check :: "string \<Rightarrow> string \<Rightarrow> bool" where
  "segment_check key prefix_part =
     (startswith key (last_segment prefix_part) \<or> endswith prefix_part (last_segment key))"

fun boolean_suffix_loop :: "string \<Rightarrow> string \<Rightarrow> string \<Rightarrow> (string \<times> string) list \<Rightarrow> string option" where
  "boolean_suffix_loop key val lower_val [] = None"
| "boolean_suffix_loop key val lower_val ((suf, mapped) # rest) =
     (if endswith lower_val suf then
        (let prefix_part = take (length val - length suf) val in
         if segment_check key prefix_part then Some mapped
         else if prefix_part = key then Some mapped
         else boolean_suffix_loop key val lower_val rest)
      else boolean_suffix_loop key val lower_val rest)"

text \<open>
  \<^verbatim>\<open>simplify_display_value\<close> (lines 132-169), for a key that is a \<^verbatim>\<open>str\<close> as its
  signature says.
\<close>

definition simplify_display_value :: "'f host \<Rightarrow> string \<Rightarrow> 'f json \<Rightarrow> 'f json" where
  "simplify_display_value h key raw_val =
     (case simplify_value h raw_val of
        JStr val \<Rightarrow>
          if placeholder_search val then JStr val
          else
            (case boolean_suffix_loop key val (py_lower val) BOOLEAN_SUFFIXES of
               Some mapped \<Rightarrow> JStr mapped
             | None \<Rightarrow>
                 if startswith val (key @ ''_'') then JStr (drop (length key + 1) val)
                 else if startswith val key \<and> lstrip_underscore (drop (length key) val) \<noteq> []
                   then JStr (lstrip_underscore (drop (length key) val))
                 else JStr val)
      | other \<Rightarrow> other)"

text \<open>
  The condition under which the loop over the boolean suffixes returns, named for the
  statements about \<^verbatim>\<open>simplify_display_value\<close>.
\<close>

definition matches_boolean_suffix_rule :: "string \<Rightarrow> string \<Rightarrow> bool" where
  "matches_boolean_suffix_rule key val =
     (boolean_suffix_loop key val (py_lower val) BOOLEAN_SUFFIXES \<noteq> None)"

text \<open>
  \<^verbatim>\<open>walk\<close> passes the node's \<^verbatim>\<open>settingDefinitionId\<close> as the key, whatever its type.
  With a key that is not a \<^verbatim>\<open>str\<close> the body of \<^verbatim>\<open>simplify_display_value\<close> returns at
  the placeholder test or raises: \<^verbatim>\<open>key.startswith\<close> is an \<^verbatim>\<open>AttributeError\<close> inside the
  loop, \<^verbatim>\<open>key + "_"\<close> a \<^verbatim>\<open>TypeError\<close> after it.
\<close>

definition call_simplify_display_value :: "'f host \<Rightarrow> 'f json \<Rightarrow> 'f json \<Rightarrow> py_error + 'f json" where
  "call_simplify_display_value h key raw_val =
     (case key of
        JStr k \<Rightarrow> Inr (simplify_display_value h k raw_val)
      | _ \<Rightarrow>
          (case simplify_value h raw_val of
             JStr val \<Rightarrow>
               if placeholder_search val then Inr (JStr val)
               else if list_ex (\<lambda>(suf, mapped). endswith (py_lower val) suf) BOOLEAN_SUFFIXES
                 then Inl AttributeError
               else Inl TypeError
           | other \<Rightarrow> Inr other))"

section \<open>TreeWalker\<close>

text \<open>\<^verbatim>\<open>d.get(k)\<close>: \<^verbatim>\<open>None\<close> when the key is absent.\<close>

definition get_or_none :: "(string \<times> 'f json) list \<Rightarrow> string \<Rightarrow> 'f json" where
  "get_or_none d k = dict_get_default d k JNull"

text \<open>
  The list \<^verbatim>\<open>out\<close> that \<^verbatim>\<open>walk\<close> appends to is passed and returned; an exception
  is \<open>Inl\<close> and ends the traversal. A carrier block of lines 88-98: the block must be a
  \<^verbatim>\<open>dict\<close> and its \<^verbatim>\<open>value\<close> not \<^verbatim>\<open>None\<close>.
\<close>

definition carrier_step ::
  "'f host \<Rightarrow> 'f json \<Rightarrow> 'f json \<Rightarrow> 'f pair list \<Rightarrow> py_error + 'f pair list" where
  "carrier_step h sdid block out =
     (case block of
        JObj b \<Rightarrow>
          (let val = get_or_none b ''value'' in
           if val \<noteq> JNull then
             (case call_simplify_display_value h sdid val of
                Inl e \<Rightarrow> Inl e
              | Inr v \<Rightarrow> Inr (out @ [(sdid, v)]))
           else Inr out)
      | _ \<Rightarrow> Inr out)"

text \<open>Lines 102-107, \<^verbatim>\<open>for idx, item in enumerate(collection_block)\<close>.\<close>

fun collection_loop ::
  "'f host \<Rightarrow> 'f json \<Rightarrow> nat \<Rightarrow> 'f json list \<Rightarrow> 'f pair list \<Rightarrow> py_error + 'f pair list" where
  "collection_loop h sdid idx [] out = Inr out"
| "collection_loop h sdid idx (item # items) out =
     (case item of
        JObj d \<Rightarrow>
          (let val = get_or_none d ''value'' in
           if val \<noteq> JNull then
             (case call_simplify_display_value h sdid val of
                Inl e \<Rightarrow> Inl e
              | Inr v \<Rightarrow>
                  collection_loop h sdid (Suc idx) items
                    (out @ [(JStr (py_str h sdid @ ''['' @ str_nat idx @ '']''), v)]))
           else collection_loop h sdid (Suc idx) items out)
      | _ \<Rightarrow> collection_loop h sdid (Suc idx) items out)"

text \<open>Lines 85-107: what \<^verbatim>\<open>walk\<close> does at a \<^verbatim>\<open>dict\<close> node before it recurses.\<close>

definition inspect_node ::
  "'f host \<Rightarrow> (string \<times> 'f json) list \<Rightarrow> 'f pair list \<Rightarrow> py_error + 'f pair list" where
  "inspect_node h node out =
     (let sdid = get_or_none node ''settingDefinitionId'' in
      if truthy h sdid then
        (case carrier_step h sdid (get_or_none node ''choiceSettingValue'') out of
           Inl e \<Rightarrow> Inl e
         | Inr out1 \<Rightarrow>
             (case carrier_step h sdid (get_or_none node ''simpleSettingValue'') out1 of
                Inl e \<Rightarrow> Inl e
              | Inr out2 \<Rightarrow>
                  (case get_or_none node ''simpleSettingCollectionValue'' of
                     JArr collection_block \<Rightarrow> collection_loop h sdid 0 collection_block out2
                   | _ \<Rightarrow> Inr out2)))
      else Inr out)"

lemma size_values_le:
  "size_list (size \<circ> snd) (node :: (string \<times> 'f json) list) \<le> size_list (size_prod (\<lambda>_. 0) size) node"
  by (induction node) auto

function walk :: "'f host \<Rightarrow> 'f json \<Rightarrow> 'f pair list \<Rightarrow> py_error + 'f pair list"
  and walk_each :: "'f host \<Rightarrow> 'f json list \<Rightarrow> 'f pair list \<Rightarrow> py_error + 'f pair list" where
  "walk h (JObj node) out =
     (case inspect_node h node out of
        Inl e \<Rightarrow> Inl e
      | Inr out1 \<Rightarrow> walk_each h (map snd node) out1)"
| "walk h (JArr items) out = walk_each h items out"
| "walk h JNull out = Inr out"
| "walk h (JBool b) out = Inr out"
| "walk h (JInt i) out = Inr out"
| "walk h (JFloat f) out = Inr out"
| "walk h (JStr s) out = Inr out"
| "walk_each h [] out = Inr out"
| "walk_each h (x # xs) out =
     (case walk h x out of
        Inl e \<Rightarrow> Inl e
      | Inr out1 \<Rightarrow> walk_each h xs out1)"
  by pat_completeness auto

termination
proof (relation "measure (\<lambda>x. case x of Inl (h, n, out) \<Rightarrow> size n | Inr (h, xs, out) \<Rightarrow> size_list size xs)")
  show "wf (measure (\<lambda>x. case x of Inl (h :: 'f host, n :: 'f json, out :: 'f pair list) \<Rightarrow> size n
                                 | Inr (h, xs, out) \<Rightarrow> size_list size xs))"
    by simp
qed (auto simp: less_Suc_eq_le size_values_le)

text \<open>\<^verbatim>\<open>extract_settings_catalog\<close> (lines 76-116), for a document that is a \<^verbatim>\<open>dict\<close>.\<close>

definition extract_settings_catalog ::
  "'f host \<Rightarrow> (string \<times> 'f json) list \<Rightarrow> py_error + 'f pair list" where
  "extract_settings_catalog h json_doc =
     walk h (dict_get_default json_doc ''settings'' (JArr [])) []"

section \<open>CompliancePolicyExtractor\<close>









section \<open>ArtifactClassifier\<close>

definition is_lower_az :: "char \<Rightarrow> bool" where
  "is_lower_az c = (97 \<le> (of_char c :: nat) \<and> (of_char c :: nat) \<le> 122)"

definition is_digit :: "char \<Rightarrow> bool" where
  "is_digit c = (48 \<le> (of_char c :: nat) \<and> (of_char c :: nat) \<le> 57)"

text \<open>
  \<^verbatim>\<open>re.match(r"([a-z]{3})-([a-z]{3})-(\d{3})", name)\<close>, giving \<^verbatim>\<open>m.group(1)\<close>: the
  pattern is matched at the start of the name and what follows it is free.
\<close>

definition ref_id_match :: "string \<Rightarrow> string option" where
  "ref_id_match nm =
     (if 11 \<le> length nm
         \<and> list_all is_lower_az (take 3 nm) \<and> nm ! 3 = CHR ''-''
         \<and> list_all is_lower_az (take 3 (drop 4 nm)) \<and> nm ! 7 = CHR ''-''
         \<and> list_all is_digit (take 3 (drop 8 nm))
      then Some (take 3 nm) else None)"

definition type_mapping :: "(string \<times> string) list" where
  "type_mapping = [(''pol'', ''Policy''), (''cfg'', ''CustomConfig''), (''cmp'', ''Compliance''),
                   (''scr'', ''Script''), (''cat'', ''CustomAttribute''), (''app'', ''Package'')]"

text \<open>\<^verbatim>\<open>classify_type\<close> (lines 228-246), on \<^verbatim>\<open>path.name\<close>.\<close>

definition classify_type :: "string \<Rightarrow> string" where
  "classify_type nm =
     (case ref_id_match nm of
        Some prefix \<Rightarrow> dict_get_default type_mapping prefix ''Unknown''
      | None \<Rightarrow> if endswith nm ''.mobileconfig'' then ''CustomConfig'' else ''Policy'')"

section \<open>ArtifactAggregator\<close>

text \<open>
  An entry of the list \<^verbatim>\<open>entries\<close> of \<^verbatim>\<open>build_entries\<close>. The name and the description
  are a \<^verbatim>\<open>str\<close> or \<^verbatim>\<open>None\<close>.
\<close>

record 'f entry =
  e_ref :: string
  e_type :: string
  e_relpath :: string
  e_name :: "'f json"
  e_description :: "'f json"
  e_settings :: "'f pair list"
  e_count :: nat

text \<open>
  An element of an \<^verbatim>\<open>ElementTree\<close>: its tag, its text (\<^verbatim>\<open>None\<close> when the element has
  none) and its children. \<^verbatim>\<open>find\<close> gives the first child with a tag.
\<close>

datatype xml = Element (xtag: string) (xtext: "string option") (xchildren: "xml list")

definition xfind :: "xml \<Rightarrow> string \<Rightarrow> xml option" where
  "xfind el t = find (\<lambda>c. xtag c = t) (xchildren el)"

text \<open>\<^verbatim>\<open>str.strip\<close>: the white space among the code points below 256.\<close>

definition is_space :: "char \<Rightarrow> bool" where
  "is_space c =
     (let n = (of_char c :: nat) in
      (9 \<le> n \<and> n \<le> 13) \<or> (28 \<le> n \<and> n \<le> 32) \<or> n = 133 \<or> n = 160)"

definition py_strip :: "string \<Rightarrow> string" where
  "py_strip s = rev (dropWhile is_space (rev (dropWhile is_space s)))"

text \<open>
  A manifest file found by \<^verbatim>\<open>REPO_ROOT.rglob("*.xml")\<close>: the stem of its path and the
  root that \<^verbatim>\<open>ET.parse\<close> gives (\<open>None\<close> when it raises). What the file system answers
  for \<^verbatim>\<open>REPO_ROOT / rel_source\<close> is an argument: whether the path exists (\<open>None\<close> when
  \<^verbatim>\<open>exists()\<close> raises an \<^verbatim>\<open>OSError\<close>, as it does for a name that is too long), and
  its stem.
\<close>

record manifest =
  mstem :: string
  mroot :: "xml option"

record filesystem =
  path_exists :: "string \<Rightarrow> bool option"
  path_stem :: "string \<Rightarrow> string"

text \<open>Lines 496-507: the settings of a manifest, from the subtree named after its type.\<close>

definition manifest_settings :: "xml \<Rightarrow> string \<Rightarrow> 'f pair list" where
  "manifest_settings root artifact_type =
     (if artifact_type \<in> {''Script'', ''Package'', ''CustomAttribute''} then
        (case xfind root artifact_type of
           Some subtree \<Rightarrow>
             concat (map (\<lambda>child. case xtext child of
                                    Some t \<Rightarrow> if t \<noteq> [] then [(JStr (xtag child), JStr (py_strip t))]
                                              else []
                                  | None \<Rightarrow> [])
                       (xchildren subtree))
         | None \<Rightarrow> [])
      else [])"

text \<open>\<^verbatim>\<open>el.text.strip() if el is not None and el.text else dflt\<close> (lines 512-513).\<close>

definition text_or :: "xml option \<Rightarrow> 'f json \<Rightarrow> 'f json" where
  "text_or el dflt =
     (case el of
        Some e \<Rightarrow> (case xtext e of
                     Some t \<Rightarrow> if t \<noteq> [] then JStr (py_strip t) else dflt
                   | None \<Rightarrow> dflt)
      | None \<Rightarrow> dflt)"

text \<open>
  One turn of the loop over the manifests (lines 465-518). Every exception raised in
  the body is caught there and the manifest is left out: a file that does not parse, and
  a \<^verbatim>\<open>Type\<close> or \<^verbatim>\<open>SourceFile\<close> element without text (\<^verbatim>\<open>None.strip()\<close>), and
  an \<^verbatim>\<open>OSError\<close> of \<^verbatim>\<open>exists()\<close> while the entry is built (line 509).
\<close>

definition process_manifest ::
  "filesystem \<Rightarrow> manifest \<Rightarrow> 'f entry list \<Rightarrow> 'f entry list" where
  "process_manifest fs m entries =
     (case mroot m of
        None \<Rightarrow> entries
      | Some root \<Rightarrow>
          if xtag root \<noteq> ''MacIntuneManifest'' then entries
          else
            (case (xfind root ''Type'', xfind root ''SourceFile'') of
               (Some type_el, Some src_el) \<Rightarrow>
                 (case (xtext type_el, xtext src_el) of
                    (Some type_text, Some src_text) \<Rightarrow>
                      (let artifact_type = py_strip type_text;
                           rel_source = py_strip src_text
                       in if artifact_type \<in> {''Policy'', ''CustomConfig'', ''Compliance''}
                             \<and> endswith rel_source ''.json'' then entries
                          else if artifact_type = ''CustomConfig''
                             \<and> endswith rel_source ''.mobileconfig'' then entries
                          else if list_ex (\<lambda>e. e_relpath e = rel_source) entries then entries
                          else
                            (let settings = manifest_settings root artifact_type
                             in case path_exists fs rel_source of
                                  None \<Rightarrow> entries
                                | Some found \<Rightarrow>
                                    entries @
                                    [\<lparr>e_ref = (if found then path_stem fs rel_source else mstem m),
                                      e_type = artifact_type,
                                      e_relpath = rel_source,
                                      e_name = text_or (xfind root ''Name'') JNull,
                                      e_description = text_or (xfind root ''Description'') (JStr ''''),
                                      e_settings = settings,
                                      e_count = length settings\<rparr>]))
                  | _ \<Rightarrow> entries)
             | _ \<Rightarrow> entries))"

fun manifest_loop :: "filesystem \<Rightarrow> manifest list \<Rightarrow> 'f entry list \<Rightarrow> 'f entry list" where
  "manifest_loop fs [] entries = entries"
| "manifest_loop fs (m # ms) entries = manifest_loop fs ms (process_manifest fs m entries)"

text \<open>Lines 540-550: the loop that removes duplicates, then the stable sort on \<^verbatim>\<open>ref\<close>.\<close>

definition identity :: "'f entry \<Rightarrow> string \<times> string \<times> string" where
  "identity entry = (e_ref entry, e_type entry, e_relpath entry)"

fun dedupe_loop ::
  "'f entry list \<Rightarrow> (string \<times> string \<times> string) set \<Rightarrow> 'f entry list \<Rightarrow> 'f entry list" where
  "dedupe_loop [] seen deduped = deduped"
| "dedupe_loop (entry # rest) seen deduped =
     (if identity entry \<notin> seen
      then dedupe_loop rest (insert (identity entry) seen) (deduped @ [entry])
      else dedupe_loop rest seen deduped)"

definition final_merge :: "'f entry list \<Rightarrow> 'f entry list" where
  "final_merge entries = sort_key e_ref (dedupe_loop entries {} [])"

text \<open>
  \<^verbatim>\<open>build_entries\<close> (lines 399-550) from the point where the loop over the JSON files
  has filled \<^verbatim>\<open>entries\<close>: the manifests are processed next, the loop over the profile
  bundles (lines 519-538) then appends its entries, and the list is merged. The entries
  of the two loops over the primary files are arguments.
\<close>

definition build_entries ::
  "filesystem \<Rightarrow> 'f entry list \<Rightarrow> manifest list \<Rightarrow> 'f entry list \<Rightarrow> 'f entry list" where
  "build_entries fs json_entries xml_manifests bundle_entries =
     final_merge (manifest_loop fs xml_manifests json_entries @ bundle_entries)"

text \<open>An interpreter for the closed examples: its documents hold no float.\<close>

definition sample_host :: "unit host" where
  "sample_host = \<lparr>float_str = (\<lambda>_. ''0.0''), float_json = (\<lambda>_. ''0.0''),
                   float_truthy = (\<lambda>_. False), container_repr = (\<lambda>_. ''[]'')\<rparr>"

section \<open>What the extractors are expected to emit\<close>

text \<open>
  The pairs the specification describes, written with \<^const>\<open>enumerate\<close> instead of loops
  and counters; the theorems below compare the loops of the source with them.

  For the settings catalog: the pair of a carrier block under the identifier \<open>sdid\<close>, and
  the pair of the entry at position \<open>idx\<close> of a collection.
\<close>

definition carrier_pairs :: "'f host \<Rightarrow> string \<Rightarrow> 'f json \<Rightarrow> 'f pair list" where
  "carrier_pairs h sdid block =
     (case block of
        JObj b \<Rightarrow>
          if get_or_none b ''value'' \<noteq> JNull
          then [(JStr sdid, simplify_display_value h sdid (get_or_none b ''value''))]
          else []
      | _ \<Rightarrow> [])"

definition collection_pairs :: "'f host \<Rightarrow> string \<Rightarrow> nat \<times> 'f json \<Rightarrow> 'f pair list" where
  "collection_pairs h sdid entry =
     (case entry of
        (idx, JObj d) \<Rightarrow>
          if get_or_none d ''value'' \<noteq> JNull
          then [(JStr (sdid @ ''['' @ str_nat idx @ '']''),
                 simplify_display_value h sdid (get_or_none d ''value''))]
          else []
      | _ \<Rightarrow> [])"

text \<open>
  All the pairs of a node with the identifier \<open>sdid\<close>: its choice value, its simple
  value, the entries of its collection. A node without an identifier has none.
\<close>

definition node_pairs :: "'f host \<Rightarrow> (string \<times> 'f json) list \<Rightarrow> 'f pair list" where
  "node_pairs h node =
     (case get_or_none node ''settingDefinitionId'' of
        JStr sdid \<Rightarrow>
          if sdid \<noteq> [] then
            carrier_pairs h sdid (get_or_none node ''choiceSettingValue'')
            @ carrier_pairs h sdid (get_or_none node ''simpleSettingValue'')
            @ (case get_or_none node ''simpleSettingCollectionValue'' of
                 JArr items \<Rightarrow> concat (map (collection_pairs h sdid) (enumerate 0 items))
               | _ \<Rightarrow> [])
          else []
      | _ \<Rightarrow> [])"

text \<open>The mappings of a tree, each before the mappings inside it, in document order.\<close>

primrec nodes :: "'f json \<Rightarrow> (string \<times> 'f json) list list" where
  "nodes JNull = []"
| "nodes (JBool b) = []"
| "nodes (JInt i) = []"
| "nodes (JFloat f) = []"
| "nodes (JStr s) = []"
| "nodes (JArr xs) = concat (map nodes xs)"
| "nodes (JObj kvs) = kvs # concat (map snd (map (map_prod id nodes) kvs))"

text \<open>
  Every identifier of the tree that counts as present (\<^verbatim>\<open>if sdid:\<close>) is a \<^verbatim>\<open>str\<close>. On
  such a tree \<^verbatim>\<open>walk\<close> raises nothing.
\<close>

definition string_id :: "'f host \<Rightarrow> (string \<times> 'f json) list \<Rightarrow> bool" where
  "string_id h node =
     (case get_or_none node ''settingDefinitionId'' of
        JStr s \<Rightarrow> True
      | other \<Rightarrow> \<not> truthy h other)"

primrec string_ids :: "'f host \<Rightarrow> 'f json \<Rightarrow> bool" where
  "string_ids h JNull = True"
| "string_ids h (JBool b) = True"
| "string_ids h (JInt i) = True"
| "string_ids h (JFloat f) = True"
| "string_ids h (JStr s) = True"
| "string_ids h (JArr xs) = list_all (\<lambda>ok. ok) (map (string_ids h) xs)"
| "string_ids h (JObj kvs) =
     (string_id h kvs \<and> list_all (\<lambda>ok. ok) (map snd (map (map_prod id (string_ids h)) kvs)))"








text \<open>A setting node with a choice value and a collection of two values.\<close>

definition sample_node :: "(string \<times> unit json) list" where
  "sample_node =
     [(''settingDefinitionId'', JStr ''com.acme.list''),
      (''choiceSettingValue'', JObj [(''value'', JStr ''com.acme.list_true''), (''children'', JArr [])]),
      (''simpleSettingCollectionValue'',
         JArr [JObj [(''value'', JInt 1)], JObj [(''value'', JInt 2)]])]"

text \<open>
  Documents in which an identifier is not a string, or is the empty string: the node
  beside a mapping whose identifier is a number, the node with a number for its own
  identifier, and the node with the empty string for its identifier.
\<close>

definition sample_number_id_catalog :: "(string \<times> unit json) list" where
  "sample_number_id_catalog =
     [(''settings'',
         JArr [JObj sample_node,
               JObj [(''settingDefinitionId'', JInt 5),
                     (''simpleSettingValue'', JObj [(''value'', JInt 1)])]])]"

definition sample_number_node :: "(string \<times> unit json) list" where
  "sample_number_node = (''settingDefinitionId'', JInt 5) # tl sample_node"

definition sample_empty_id_node :: "(string \<times> unit json) list" where
  "sample_empty_id_node = (''settingDefinitionId'', JStr []) # tl sample_node"

text \<open>A settings catalog document that holds the node inside a group.\<close>

definition sample_catalog :: "(string \<times> unit json) list" where
  "sample_catalog =
     [(''name'', JStr ''Sample''),
      (''settings'',
         JArr [JObj [(''settingInstance'',
                        JObj [(''settingDefinitionId'', JStr ''com.acme.group''),
                              (''groupSettingCollectionValue'',
                                 JArr [JObj [(''children'', JArr [JObj sample_node])]])])]])]"

text \<open>
  A repository with one profile bundle, \<^verbatim>\<open>configurations/intune/cfg-sec-001.mobileconfig\<close>.
  Its manifest declares the type \<^verbatim>\<open>Policy\<close>. The entry that the loop over the profile
  bundles builds for the file takes its type from that manifest (lines 526-529).
\<close>

definition sample_fs :: filesystem where
  "sample_fs = \<lparr>path_exists = (\<lambda>p. Some (p = ''configurations/intune/cfg-sec-001.mobileconfig'')),
                 path_stem = (\<lambda>p. if p = ''configurations/intune/cfg-sec-001.mobileconfig''
                                   then ''cfg-sec-001'' else [])\<rparr>"

definition sample_manifest :: manifest where
  "sample_manifest =
     \<lparr>mstem = ''cfg-sec-001'',
      mroot = Some (Element ''MacIntuneManifest'' None
                [Element ''Name'' (Some ''Security baseline'') [],
                 Element ''Type'' (Some ''Policy'') [],
                 Element ''SourceFile'' (Some ''configurations/intune/cfg-sec-001.mobileconfig'') []])\<rparr>"

definition sample_manifest_entry :: "unit entry" where
  "sample_manifest_entry =
     \<lparr>e_ref = ''cfg-sec-001'', e_type = ''Policy'',
      e_relpath = ''configurations/intune/cfg-sec-001.mobileconfig'',
      e_name = JStr ''Security baseline'', e_description = JStr [],
      e_settings = [], e_count = 0\<rparr>"

definition sample_bundle_entry :: "unit entry" where
  "sample_bundle_entry =
     \<lparr>e_ref = ''cfg-sec-001'', e_type = ''Policy'',
      e_relpath = ''configurations/intune/cfg-sec-001.mobileconfig'',
      e_name = JStr ''Security baseline'', e_description = JStr [],
      e_settings = [(JStr ''com.apple.screensaver.askForPassword'', JStr ''True'')], e_count = 1\<rparr>"

definition sample_policy_entry :: "unit entry" where
  "sample_policy_entry =
     \<lparr>e_ref = ''pol-sec-002'', e_type = ''Policy'',
      e_relpath = ''configurations/intune/pol-sec-002.json'',
      e_name = JNull, e_description = JNull,
      e_settings = [(JStr ''k'', JStr ''v'')], e_count = 1\<rparr>"

section \<open>Properties of the value normalizer\<close>

text \<open>
  Claim C2. A string of at most 120 characters is returned by \<^verbatim>\<open>simplify_value\<close>
  unchanged; a longer one becomes its first 117 characters followed by the three
  characters \<^verbatim>\<open>...\<close>, a result of exactly 120 characters that ends with that marker.
\<close>

theorem simplify_value_string:
  "(length v \<le> 120 \<longrightarrow> simplify_value h (JStr v) = JStr v) \<and>
   (length v > 120 \<longrightarrow>
      simplify_value h (JStr v) = JStr (take 117 v @ ''...'') \<and>
      length (take 117 v @ ''...'') = 120 \<and>
      endswith (take 117 v @ ''...'') ''...'')"
  by (simp add: endswith_def)

theorem simplify_value_string_witness:
  "simplify_value sample_host (JStr ''abc'') = JStr ''abc'' \<and>
   simplify_value sample_host (JStr (replicate 121 CHR ''x'')) = JStr (replicate 117 CHR ''x'' @ ''...'')"
  using simplify_value_string [of "''abc''" sample_host]
        simplify_value_string [of "replicate 121 CHR ''x''" sample_host]
  by simp

lemma startswith_simps:
  "startswith s [] = True"
  "startswith [] (p # ps) = False"
  "startswith (x # xs) (p # ps) = (x = p \<and> startswith xs ps)"
  by (auto simp: startswith_def)

lemma closes_intro: "CHR 0x0A \<notin> set b \<Longrightarrow> closes (b @ ''}}'' @ c)"
  by (induction b) (auto simp: startswith_simps)

lemma placeholder_search_intro:
  "CHR 0x0A \<notin> set b \<Longrightarrow> placeholder_search (a @ ''{{'' @ b @ ''}}'' @ c)"
proof (induction a)
  case Nil
  have "closes (b @ ''}}'' @ c)" using Nil by (rule closes_intro)
  then show ?case by (simp add: startswith_simps)
next
  case (Cons x a)
  then show ?case by simp
qed

lemma closes_elim: "closes s \<Longrightarrow> \<exists>b c. s = b @ ''}}'' @ c \<and> CHR 0x0A \<notin> set b"
proof (induction s)
  case Nil
  then show ?case by simp
next
  case (Cons x s)
  show ?case
  proof (cases "startswith (x # s) ''}}''")
    case True
    then have "x # s = [] @ ''}}'' @ drop 2 (x # s)"
      by (metis append_Nil append_take_drop_id length_Cons list.size(3) numeral_2_eq_2 startswith_def)
    then show ?thesis by (metis empty_iff list.set(1))
  next
    case False
    with Cons.prems have nl: "x \<noteq> CHR 0x0A" and "closes s"
      by (auto split: if_splits)
    then obtain b c where "s = b @ ''}}'' @ c" "CHR 0x0A \<notin> set b"
      using Cons.IH by blast
    then have "x # s = (x # b) @ ''}}'' @ c \<and> CHR 0x0A \<notin> set (x # b)"
      using nl by simp
    then show ?thesis by blast
  qed
qed

lemma placeholder_search_elim:
  "placeholder_search s \<Longrightarrow> \<exists>a b c. s = a @ ''{{'' @ b @ ''}}'' @ c \<and> CHR 0x0A \<notin> set b"
proof (induction s)
  case Nil
  then show ?case by simp
next
  case (Cons x s)
  show ?case
  proof (cases "startswith (x # s) ''{{'' \<and> closes (drop 1 s)")
    case True
    then obtain b c where bc: "drop 1 s = b @ ''}}'' @ c" "CHR 0x0A \<notin> set b"
      using closes_elim by blast
    from True have "x # s = ''{{'' @ drop 1 s"
      by (cases s) (auto simp: startswith_def)
    with bc have "x # s = [] @ ''{{'' @ b @ ''}}'' @ c" by simp
    with bc(2) show ?thesis by blast
  next
    case False
    with Cons.prems have "placeholder_search s" by auto
    then obtain a b c where "s = a @ ''{{'' @ b @ ''}}'' @ c" "CHR 0x0A \<notin> set b"
      using Cons.IH by blast
    then have "x # s = (x # a) @ ''{{'' @ b @ ''}}'' @ c \<and> CHR 0x0A \<notin> set b" by simp
    then show ?thesis by blast
  qed
qed


lemma endswith_iff: "endswith s p \<longleftrightarrow> (\<exists>a. s = a @ p)"
proof
  assume "endswith s p"
  then have "s = take (length s - length p) s @ p"
    by (metis append_take_drop_id endswith_def)
  then show "\<exists>a. s = a @ p" ..
next
  assume "\<exists>a. s = a @ p"
  then show "endswith s p" by (auto simp: endswith_def)
qed

lemma endswith_false_not_true:
  assumes "endswith s ''_false''"
  shows "\<not> endswith s ''_true''"
proof
  assume "endswith s ''_true''"
  then obtain b where b: "s = b @ ''_true''" by (auto simp: endswith_iff)
  from assms obtain a where a: "s = a @ ''_false''" by (auto simp: endswith_iff)
  from a have "drop (length s - 5) s = ''false''" by simp
  moreover from b have "drop (length s - 5) s = ''_true''" by simp
  ultimately show False by simp
qed

lemma Suc5: "Suc (Suc (Suc (Suc (Suc 0)))) = 5"
  by simp

lemma Suc6: "Suc (Suc (Suc (Suc (Suc (Suc 0))))) = 6"
  by simp

lemma loop_true:
  assumes "endswith lower_val ''_true''"
    and "take (length val - 5) val = key \<or> segment_check key (take (length val - 5) val)"
  shows "boolean_suffix_loop key val lower_val BOOLEAN_SUFFIXES = Some ''True''"
  using assms by (auto simp: BOOLEAN_SUFFIXES_def Let_def Suc5)

lemma loop_false:
  assumes "endswith lower_val ''_false''"
    and "take (length val - 6) val = key \<or> segment_check key (take (length val - 6) val)"
  shows "boolean_suffix_loop key val lower_val BOOLEAN_SUFFIXES = Some ''False''"
proof -
  have "\<not> endswith lower_val ''_true''"
    using assms(1) by (rule endswith_false_not_true)
  then show ?thesis
    using assms by (auto simp: BOOLEAN_SUFFIXES_def Let_def Suc6)
qed

lemma display_value_true:
  assumes "simplify_value h raw = JStr val" and "\<not> placeholder_search val"
    and "endswith (py_lower val) ''_true''"
    and "take (length val - 5) val = key \<or> segment_check key (take (length val - 5) val)"
  shows "simplify_display_value h key raw = JStr ''True''"
  using assms(1,2) loop_true [OF assms(3,4)]
  by (simp add: simplify_display_value_def)

lemma display_value_false:
  assumes "simplify_value h raw = JStr val" and "\<not> placeholder_search val"
    and "endswith (py_lower val) ''_false''"
    and "take (length val - 6) val = key \<or> segment_check key (take (length val - 6) val)"
  shows "simplify_display_value h key raw = JStr ''False''"
  using assms(1,2) loop_false [OF assms(3,4)]
  by (simp add: simplify_display_value_def)

text \<open>
  Claim C3. The two examples of the specification hold. In general, let \<open>val\<close> be the
  normalized value, a string without a placeholder token. If \<open>val\<close> ends, whatever the
  case of its letters, in \<^verbatim>\<open>_true\<close> and the part before that suffix is the key itself or
  passes the containment test against the last dot-segments (line 154), the result is
  \<^verbatim>\<open>"True"\<close>; likewise \<^verbatim>\<open>"False"\<close> for \<^verbatim>\<open>_false\<close>.
\<close>

theorem simplify_display_value_boolean:
  assumes "simplify_value h raw = JStr val" and "\<not> placeholder_search val"
  shows "simplify_display_value h ''com.acme.x'' (JStr ''com.acme.x_true'') = JStr ''True'' \<and>
         simplify_display_value h ''com.acme.x'' (JStr ''com.acme.x_false'') = JStr ''False'' \<and>
         (endswith (py_lower val) ''_true'' \<and>
            (take (length val - 5) val = key \<or> segment_check key (take (length val - 5) val))
            \<longrightarrow> simplify_display_value h key raw = JStr ''True'') \<and>
         (endswith (py_lower val) ''_false'' \<and>
            (take (length val - 6) val = key \<or> segment_check key (take (length val - 6) val))
            \<longrightarrow> simplify_display_value h key raw = JStr ''False'')"
proof (intro conjI impI)
  let ?v = "''com.acme.x_true''" and ?k = "''com.acme.x''"
  have 1: "simplify_value h (JStr ?v) = JStr ?v"
    by simp
  have 2: "\<not> placeholder_search ?v"
    by code_simp
  have 3: "endswith (py_lower ?v) ''_true''"
    by code_simp
  have 4: "take (length ?v - 5) ?v = ?k \<or> segment_check ?k (take (length ?v - 5) ?v)"
    by simp
  show "simplify_display_value h ?k (JStr ?v) = JStr ''True''"
    by (rule display_value_true [OF 1 2 3 4])
next
  let ?v = "''com.acme.x_false''" and ?k = "''com.acme.x''"
  have 1: "simplify_value h (JStr ?v) = JStr ?v"
    by simp
  have 2: "\<not> placeholder_search ?v"
    by code_simp
  have 3: "endswith (py_lower ?v) ''_false''"
    by code_simp
  have 4: "take (length ?v - 6) ?v = ?k \<or> segment_check ?k (take (length ?v - 6) ?v)"
    by simp
  show "simplify_display_value h ?k (JStr ?v) = JStr ''False''"
    by (rule display_value_false [OF 1 2 3 4])
next
  assume "endswith (py_lower val) ''_true'' \<and>
    (take (length val - 5) val = key \<or> segment_check key (take (length val - 5) val))"
  then show "simplify_display_value h key raw = JStr ''True''"
    using assms display_value_true [of h raw val key] by blast
next
  assume "endswith (py_lower val) ''_false'' \<and>
    (take (length val - 6) val = key \<or> segment_check key (take (length val - 6) val))"
  then show "simplify_display_value h key raw = JStr ''False''"
    using assms display_value_false [of h raw val key] by blast
qed

theorem simplify_display_value_boolean_witness:
  "simplify_display_value sample_host ''com.apple.systempolicy.control_EnableAssessment''
     (JStr ''com.apple.systempolicy.control_EnableAssessment_true'') = JStr ''True'' \<and>
   simplify_display_value sample_host ''EnableAssessment'' (JStr ''Control.EnableAssessment_FALSE'')
     = JStr ''False''"
proof
  let ?v = "''com.apple.systempolicy.control_EnableAssessment_true''"
  let ?k = "''com.apple.systempolicy.control_EnableAssessment''"
  have 1: "simplify_value sample_host (JStr ?v) = JStr ?v"
    by simp
  have 2: "\<not> placeholder_search ?v"
    by code_simp
  have 3: "endswith (py_lower ?v) ''_true''"
    by code_simp
  have 4: "take (length ?v - 5) ?v = ?k"
    by simp
  show "simplify_display_value sample_host ?k (JStr ?v) = JStr ''True''"
    using simplify_display_value_boolean [OF 1 2, of ?k] 3 4 by blast
next
  let ?v = "''Control.EnableAssessment_FALSE''"
  let ?k = "''EnableAssessment''"
  have 1: "simplify_value sample_host (JStr ?v) = JStr ?v"
    by simp
  have 2: "\<not> placeholder_search ?v"
    by code_simp
  have 3: "endswith (py_lower ?v) ''_false''"
    by code_simp
  have 4: "segment_check ?k (take (length ?v - 6) ?v)"
    by code_simp
  show "simplify_display_value sample_host ?k (JStr ?v) = JStr ''False''"
    using simplify_display_value_boolean [OF 1 2, of ?k] 3 4 by blast
qed

text \<open>
  Claim C4, as amended. When the value \<^verbatim>\<open>key + "_" + suffix\<close> has at most 120
  characters, holds no placeholder token and is not mapped by the boolean-suffix rule,
  \<^verbatim>\<open>simplify_display_value\<close> returns the suffix. The claim as stated fails on a value
  with a placeholder token, which is returned whole, and on a value of more than 120
  characters, which is truncated before the key is removed.
\<close>

theorem simplify_display_value_strips_key:
  assumes "length (key @ ''_'' @ suffix) \<le> 120"
    and "\<not> placeholder_search (key @ ''_'' @ suffix)"
    and "\<not> matches_boolean_suffix_rule key (key @ ''_'' @ suffix)"
  shows "simplify_display_value h key (JStr (key @ ''_'' @ suffix)) = JStr suffix"
  using assms
  by (simp add: simplify_display_value_def matches_boolean_suffix_rule_def startswith_def)

theorem simplify_display_value_strips_key_witness:
  "simplify_display_value sample_host ''com.apple.mcx.filevault2_enable''
     (JStr (''com.apple.mcx.filevault2_enable'' @ ''_'' @ ''0'')) = JStr ''0''"
proof -
  let ?k = "''com.apple.mcx.filevault2_enable''"
  have 1: "length (?k @ ''_'' @ ''0'') \<le> 120"
    by simp
  have 2: "\<not> placeholder_search (?k @ ''_'' @ ''0'')"
    by code_simp
  have 3: "\<not> matches_boolean_suffix_rule ?k (?k @ ''_'' @ ''0'')"
    by code_simp
  show ?thesis
    by (rule simplify_display_value_strips_key [OF 1 2 3])
qed

theorem simplify_display_value_strips_key_counterexample:
  "(\<not> matches_boolean_suffix_rule ''k'' (''k'' @ ''_'' @ ''{{x}}'') \<and>
    simplify_display_value sample_host ''k'' (JStr (''k'' @ ''_'' @ ''{{x}}'')) \<noteq> JStr ''{{x}}'') \<and>
   (\<not> matches_boolean_suffix_rule ''k'' (''k'' @ ''_'' @ replicate 119 CHR ''a'') \<and>
    simplify_display_value sample_host ''k'' (JStr (''k'' @ ''_'' @ replicate 119 CHR ''a''))
      \<noteq> JStr (replicate 119 CHR ''a''))"
  by code_simp

text \<open>
  Claim C5, as amended. A placeholder token is two opening braces, characters other than
  a newline, and two closing braces. When the normalized value holds one, it is the
  result, whatever the key; so a string of at most 120 characters with a placeholder
  token is returned unchanged. The claim as stated fails on a longer string: it is
  truncated first.
\<close>

theorem simplify_display_value_placeholder:
  assumes "CHR 0x0A \<notin> set b" and "val = a @ ''{{'' @ b @ ''}}'' @ c"
  shows "(simplify_value h raw = JStr val \<longrightarrow> simplify_display_value h key raw = JStr val) \<and>
         (length val \<le> 120 \<longrightarrow> simplify_display_value h key (JStr val) = JStr val)"
proof -
  have "placeholder_search val"
    unfolding assms(2) using assms(1) by (rule placeholder_search_intro)
  then show ?thesis
    by (simp add: simplify_display_value_def)
qed

theorem simplify_display_value_placeholder_witness:
  "simplify_display_value sample_host ''com.apple.mail_address'' (JStr ''com.apple.mail_address_{{mail}}'')
     = JStr ''com.apple.mail_address_{{mail}}'' \<and>
   simplify_display_value sample_host ''k'' (JStr (''k_{{x}}'' @ replicate 200 CHR ''a''))
     = JStr (''k_{{x}}'' @ replicate 110 CHR ''a'' @ ''...'')"
proof
  have nl: "CHR 0x0A \<notin> set ''mail''"
    by simp
  have "length ''com.apple.mail_address_{{mail}}'' \<le> 120"
    by simp
  then show "simplify_display_value sample_host ''com.apple.mail_address'' (JStr ''com.apple.mail_address_{{mail}}'')
     = JStr ''com.apple.mail_address_{{mail}}''"
    using simplify_display_value_placeholder
      [OF nl, where val = "''com.apple.mail_address_{{mail}}''" and a = "''com.apple.mail_address_''"
         and c = "[]" and h = sample_host and key = "''com.apple.mail_address''"]
    by simp
next
  have nl: "CHR 0x0A \<notin> set ''x''"
    by simp
  have v: "''k_{{x}}'' @ replicate 110 CHR ''a'' @ ''...'' = ''k_'' @ ''{{'' @ ''x'' @ ''}}'' @ (replicate 110 CHR ''a'' @ ''...'')"
    by simp
  have "simplify_value sample_host (JStr (''k_{{x}}'' @ replicate 200 CHR ''a''))
      = JStr (''k_{{x}}'' @ replicate 110 CHR ''a'' @ ''...'')"
    by simp
  then show "simplify_display_value sample_host ''k'' (JStr (''k_{{x}}'' @ replicate 200 CHR ''a''))
     = JStr (''k_{{x}}'' @ replicate 110 CHR ''a'' @ ''...'')"
    using simplify_display_value_placeholder [OF nl v, where h = sample_host and key = "''k''"]
    by blast
qed

theorem simplify_display_value_placeholder_counterexample:
  "placeholder_search (''{{x}}'' @ replicate 116 CHR ''a'') \<and>
   simplify_display_value sample_host ''k'' (JStr (''{{x}}'' @ replicate 116 CHR ''a''))
     \<noteq> JStr (''{{x}}'' @ replicate 116 CHR ''a'') \<and>
   simplify_display_value sample_host ''k'' (JStr [CHR ''k'', CHR ''_'', CHR ''{'', CHR ''{'', CHR 0x0A, CHR ''}'', CHR ''}''])
     \<noteq> JStr [CHR ''k'', CHR ''_'', CHR ''{'', CHR ''{'', CHR 0x0A, CHR ''}'', CHR ''}'']"
  by code_simp

text \<open>
  Claim C10. \<^verbatim>\<open>simplify_value\<close> returns a \<^verbatim>\<open>str\<close> on every document value: the empty
  string for \<^verbatim>\<open>None\<close>, \<^verbatim>\<open>str(val)\<close> for booleans and numbers, the string or its
  truncation, and the \<^verbatim>\<open>json.dumps\<close> text for lists and dicts. Hence the branch of
  \<^verbatim>\<open>simplify_display_value\<close> for a normalized value that is not a \<^verbatim>\<open>str\<close> is never
  taken, and \<^verbatim>\<open>simplify_display_value\<close> returns a \<^verbatim>\<open>str\<close> too.
\<close>

theorem simplify_value_returns_str:
  "simplify_value h JNull = JStr '''' \<and>
   simplify_value h (JBool b) = JStr (if b then ''True'' else ''False'') \<and>
   simplify_value h (JInt i) = JStr (str_int i) \<and>
   simplify_value h (JFloat f) = JStr (float_str h f) \<and>
   simplify_value h (JStr s) = JStr (if length s > 120 then take 117 s @ ''...'' else s) \<and>
   simplify_value h (JArr xs) = JStr (json_dumps h (JArr xs)) \<and>
   simplify_value h (JObj kvs) = JStr (json_dumps h (JObj kvs)) \<and>
   (\<exists>s. simplify_value h v = JStr s) \<and>
   (\<exists>s. simplify_display_value h key v = JStr s)"
proof -
  have str: "\<exists>s. simplify_value h v = JStr s"
    by (cases v) simp_all
  then obtain s where s: "simplify_value h v = JStr s" ..
  have "\<exists>s. simplify_display_value h key v = JStr s"
    by (simp add: simplify_display_value_def s split: option.split)
  with str show ?thesis by simp
qed

section \<open>Properties of the final merge\<close>

lemma dedupe_loop_acc: "dedupe_loop es seen acc = acc @ dedupe_loop es seen []"
proof (induction es arbitrary: seen acc)
  case Nil
  then show ?case by simp
next
  case (Cons e es)
  show ?case
  proof (cases "identity e \<in> seen")
    case True
    then show ?thesis using Cons.IH [of seen acc] by simp
  next
    case False
    then show ?thesis
      using Cons.IH [of "insert (identity e) seen" "acc @ [e]"]
            Cons.IH [of "insert (identity e) seen" "[e]"]
      by simp
  qed
qed

lemma dedupe_loop_Cons:
  "dedupe_loop (e # es) seen [] =
     (if identity e \<in> seen then dedupe_loop es seen []
      else e # dedupe_loop es (insert (identity e) seen) [])"
  using dedupe_loop_acc [of es "insert (identity e) seen" "[e]"] by simp

lemma dedupe_loop_identities:
  "set (map identity (dedupe_loop es seen [])) = set (map identity es) - seen"
proof (induction es arbitrary: seen)
  case Nil
  then show ?case by simp
next
  case (Cons e es)
  show ?case
    unfolding dedupe_loop_Cons using Cons.IH by (auto split: if_splits)
qed

lemma dedupe_loop_distinct: "distinct (map identity (dedupe_loop es seen []))"
proof (induction es arbitrary: seen)
  case Nil
  then show ?case by simp
next
  case (Cons e es)
  have "identity e \<notin> set (map identity (dedupe_loop es (insert (identity e) seen) []))"
    by (simp only: dedupe_loop_identities) simp
  then show ?case
    unfolding dedupe_loop_Cons using Cons.IH by simp
qed

lemma dedupe_loop_first:
  "e \<in> set (dedupe_loop es seen []) \<Longrightarrow> find (\<lambda>x. identity x = identity e) es = Some e"
proof (induction es arbitrary: seen)
  case Nil
  then show ?case by simp
next
  case (Cons x es)
  show ?case
  proof (cases "identity x \<in> seen")
    case True
    with Cons.prems have mem: "e \<in> set (dedupe_loop es seen [])"
      unfolding dedupe_loop_Cons by simp
    then have "identity e \<in> set (map identity (dedupe_loop es seen []))"
      by simp
    then have "identity e \<notin> seen"
      by (simp only: dedupe_loop_identities) simp
    with True have "identity x \<noteq> identity e" by auto
    then show ?thesis using Cons.IH [OF mem] by simp
  next
    case False
    with Cons.prems have "e = x \<or> e \<in> set (dedupe_loop es (insert (identity x) seen) [])"
      unfolding dedupe_loop_Cons by auto
    then show ?thesis
    proof
      assume "e = x"
      then show ?thesis by simp
    next
      assume mem: "e \<in> set (dedupe_loop es (insert (identity x) seen) [])"
      then have "identity e \<in> set (map identity (dedupe_loop es (insert (identity x) seen) []))"
        by simp
      then have "identity e \<noteq> identity x"
        by (simp only: dedupe_loop_identities) auto
      then show ?thesis using Cons.IH [OF mem] by simp
    qed
  qed
qed

lemma final_merge_distinct: "distinct (map identity (final_merge es))"
  using dedupe_loop_distinct [of es "{}"]
  by (simp add: final_merge_def distinct_map)

lemma final_merge_sorted: "sorted (map e_ref (final_merge es))"
  by (simp add: final_merge_def)

text \<open>
  Claim C1. The last step of \<^verbatim>\<open>build_entries\<close> leaves one entry for each identity
  \<^verbatim>\<open>(ref, type, relpath)\<close> of the list it is given: the identities of the result are
  distinct, they are the identities of the input, each entry of the result is the first
  entry of the input with its identity, and the result is sorted by \<^verbatim>\<open>ref\<close>. So the list
  that \<^verbatim>\<open>build_entries\<close> returns has distinct identities and is sorted.
\<close>

theorem final_merge_unique_sorted:
  "distinct (map identity (final_merge entries)) \<and>
   sorted (map e_ref (final_merge entries)) \<and>
   set (map identity (final_merge entries)) = set (map identity entries) \<and>
   list_all (\<lambda>e. find (\<lambda>x. identity x = identity e) entries = Some e) (final_merge entries) \<and>
   distinct (map identity (build_entries fs json_entries xml_manifests bundle_entries)) \<and>
   sorted (map e_ref (build_entries fs json_entries xml_manifests bundle_entries))"
proof -
  have i: "set (map identity (final_merge entries)) = set (map identity entries)"
    using dedupe_loop_identities [of entries "{}"] by (simp add: final_merge_def)
  have f: "list_all (\<lambda>e. find (\<lambda>x. identity x = identity e) entries = Some e) (final_merge entries)"
    by (simp add: final_merge_def list_all_iff dedupe_loop_first)
  show ?thesis
    using i f by (simp add: build_entries_def final_merge_distinct final_merge_sorted)
qed

lemma final_merge_example:
  "final_merge [sample_policy_entry, sample_bundle_entry, sample_policy_entry\<lparr>e_settings := []\<rparr>]
     = [sample_bundle_entry, sample_policy_entry]"
  by code_simp

section \<open>Properties of the classifier and of the manifest loop\<close>

lemma ref_id_match_intro:
  assumes "length p = 3" "length q = 3" "length d = 3"
    and "list_all is_lower_az p" "list_all is_lower_az q" "list_all is_digit d"
  shows "ref_id_match (p @ ''-'' @ q @ ''-'' @ d @ rest) = Some p"
  using assms by (simp add: ref_id_match_def nth_append)

lemma ref_id_match_elim:
  assumes "ref_id_match nm = Some p"
  shows "\<exists>q d rest. nm = p @ ''-'' @ q @ ''-'' @ d @ rest \<and> length p = 3 \<and> length q = 3 \<and> length d = 3
           \<and> list_all is_lower_az p \<and> list_all is_lower_az q \<and> list_all is_digit d"
proof -
  have c: "11 \<le> length nm \<and> list_all is_lower_az (take 3 nm) \<and> nm ! 3 = CHR ''-'' \<and>
      list_all is_lower_az (take 3 (drop 4 nm)) \<and> nm ! 7 = CHR ''-'' \<and>
      list_all is_digit (take 3 (drop 8 nm)) \<and> p = take 3 nm"
    using assms unfolding ref_id_match_def by (simp split: if_splits)
  define q where "q = take 3 (drop 4 nm)"
  define d where "d = take 3 (drop 8 nm)"
  have s1: "nm = take 3 nm @ nm ! 3 # drop 4 nm"
    using id_take_nth_drop [of 3 nm] c by simp
  have s2: "drop 4 nm = q @ drop 7 nm"
    using append_take_drop_id [of 3 "drop 4 nm"] by (simp add: q_def)
  have s3: "drop 7 nm = nm ! 7 # drop 8 nm"
    using Cons_nth_drop_Suc [of 7 nm] c by simp
  have s4: "drop 8 nm = d @ drop 11 nm"
    using append_take_drop_id [of 3 "drop 8 nm"] by (simp add: d_def)
  have "nm = p @ ''-'' @ q @ ''-'' @ d @ drop 11 nm"
    using s1 c unfolding s2 s3 s4 by simp
  moreover from c have len: "11 \<le> length nm"
    by simp
  then have "length p = 3 \<and> length q = 3 \<and> length d = 3"
    using c by (auto simp: q_def d_def)
  moreover have "list_all is_lower_az p \<and> list_all is_lower_az q \<and> list_all is_digit d"
    using c by (simp add: q_def d_def)
  ultimately show ?thesis by blast
qed


text \<open>
  Claim C8, as amended. A file name that starts with three lower-case letters, a hyphen,
  three lower-case letters, a hyphen and three digits is classified by its first three
  letters: the mapped classification for one of the six prefixes, \<^verbatim>\<open>"Unknown"\<close> for any
  other, whatever the extension. A name that does not start so is \<^verbatim>\<open>"CustomConfig"\<close>
  when it ends in \<^verbatim>\<open>.mobileconfig\<close> and \<^verbatim>\<open>"Policy"\<close> otherwise. The claim as stated
  fails there: such a name is never \<^verbatim>\<open>"Unknown"\<close>.
\<close>

theorem classify_type_cases:
  "(length p = 3 \<and> length q = 3 \<and> length d = 3 \<and>
    list_all is_lower_az p \<and> list_all is_lower_az q \<and> list_all is_digit d \<longrightarrow>
      classify_type (p @ ''-'' @ q @ ''-'' @ d @ rest) =
        (if p = ''pol'' then ''Policy''
         else if p = ''cfg'' then ''CustomConfig''
         else if p = ''cmp'' then ''Compliance''
         else if p = ''scr'' then ''Script''
         else if p = ''cat'' then ''CustomAttribute''
         else if p = ''app'' then ''Package''
         else ''Unknown'')) \<and>
   (ref_id_match nm = None \<longrightarrow>
      classify_type nm = (if endswith nm ''.mobileconfig'' then ''CustomConfig'' else ''Policy''))"
proof (intro conjI impI)
  assume "length p = 3 \<and> length q = 3 \<and> length d = 3 \<and>
    list_all is_lower_az p \<and> list_all is_lower_az q \<and> list_all is_digit d"
  then have "ref_id_match (p @ ''-'' @ q @ ''-'' @ d @ rest) = Some p"
    by (simp only: ref_id_match_intro)
  then show "classify_type (p @ ''-'' @ q @ ''-'' @ d @ rest) =
        (if p = ''pol'' then ''Policy''
         else if p = ''cfg'' then ''CustomConfig''
         else if p = ''cmp'' then ''Compliance''
         else if p = ''scr'' then ''Script''
         else if p = ''cat'' then ''CustomAttribute''
         else if p = ''app'' then ''Package''
         else ''Unknown'')"
    by (simp add: classify_type_def type_mapping_def dict_get_default_def)
next
  assume "ref_id_match nm = None"
  then show "classify_type nm = (if endswith nm ''.mobileconfig'' then ''CustomConfig'' else ''Policy'')"
    by (simp add: classify_type_def)
qed

theorem classify_type_cases_witness:
  "classify_type ''scr-sec-100.sh'' = ''Script'' \<and>
   classify_type ''xyz-abc-001.json'' = ''Unknown'' \<and>
   classify_type ''profile.mobileconfig'' = ''CustomConfig'' \<and>
   classify_type ''readme.json'' = ''Policy''"
proof -
  have a: "length ''scr'' = 3 \<and> length ''sec'' = 3 \<and> length ''100'' = 3 \<and>
    list_all is_lower_az ''scr'' \<and> list_all is_lower_az ''sec'' \<and> list_all is_digit ''100''"
    by code_simp
  have b: "length ''xyz'' = 3 \<and> length ''abc'' = 3 \<and> length ''001'' = 3 \<and>
    list_all is_lower_az ''xyz'' \<and> list_all is_lower_az ''abc'' \<and> list_all is_digit ''001''"
    by code_simp
  have c: "ref_id_match ''profile.mobileconfig'' = None" "endswith ''profile.mobileconfig'' ''.mobileconfig''"
    by code_simp+
  have d: "ref_id_match ''readme.json'' = None" "\<not> endswith ''readme.json'' ''.mobileconfig''"
    by code_simp+
  show ?thesis
    using classify_type_cases [of "''scr''" "''sec''" "''100''" "''.sh''" "''profile.mobileconfig''"]
          classify_type_cases [of "''xyz''" "''abc''" "''001''" "''.json''" "''readme.json''"]
          a b c d
    by simp
qed

theorem classify_type_counterexample:
  "ref_id_match ''readme.json'' = None \<and> classify_type ''readme.json'' \<noteq> ''Unknown'' \<and>
   classify_type ''xyz-abc-001.mobileconfig'' \<noteq> ''CustomConfig''"
  by code_simp

text \<open>
  Claim C9, evaluated on the sample repository. The manifest declares the type
  \<^verbatim>\<open>Policy\<close> for a profile bundle, so neither test of lines 485-488 leaves it out, and
  the bundles are read after the manifests, so the test of line 492 does not see the
  bundle either. The manifest contributes an entry whose type is none of \<^verbatim>\<open>Script\<close>,
  \<^verbatim>\<open>Package\<close>, \<^verbatim>\<open>CustomAttribute\<close>; the entry built from the bundle itself has the
  same identity and is the one the merge drops.
\<close>

theorem manifest_entry_for_profile_bundle:
  "build_entries sample_fs [] [sample_manifest] [] = [sample_manifest_entry] \<and>
   build_entries sample_fs [] [sample_manifest] [sample_bundle_entry] = [sample_manifest_entry] \<and>
   e_type sample_manifest_entry = ''Policy'' \<and>
   endswith (e_relpath sample_manifest_entry) ''.mobileconfig''"
  by code_simp

section \<open>Properties of the tree walker\<close>

lemma call_with_string_key:
  "call_simplify_display_value h (JStr k) v = Inr (simplify_display_value h k v)"
  by (simp add: call_simplify_display_value_def)

lemma carrier_step_pairs:
  "carrier_step h (JStr sdid) block out = Inr (out @ carrier_pairs h sdid block)"
  by (cases block) (simp_all add: carrier_step_def carrier_pairs_def call_with_string_key)

lemma collection_loop_pairs:
  "collection_loop h (JStr sdid) idx items out =
     Inr (out @ concat (map (collection_pairs h sdid) (enumerate idx items)))"
proof (induction items arbitrary: idx out)
  case Nil
  then show ?case by simp
next
  case (Cons item items)
  show ?case
    by (cases item) (simp_all add: Cons.IH collection_pairs_def call_with_string_key)
qed

lemma inspect_node_pairs:
  assumes "string_id h node"
  shows "inspect_node h node out = Inr (out @ node_pairs h node)"
proof (cases "get_or_none node ''settingDefinitionId''")
  case (JStr sdid)
  then show ?thesis
    by (simp add: inspect_node_def node_pairs_def carrier_step_pairs collection_loop_pairs
             split: json.split)
qed (use assms in \<open>simp_all add: inspect_node_def node_pairs_def string_id_def\<close>)

lemma walk_pairs:
  "string_ids h n \<Longrightarrow> walk h n out = Inr (out @ concat (map (node_pairs h) (nodes n)))"
  "list_all (string_ids h) xs \<Longrightarrow>
     walk_each h xs out = Inr (out @ concat (map (node_pairs h) (concat (map nodes xs))))"
proof (induction h n out and h xs out rule: walk_walk_each.induct)
  case (1 h node out)
  from "1.prems" have id: "string_id h node" and sub: "list_all (string_ids h) (map snd node)"
    by (simp_all add: list_all_iff)
  have a: "inspect_node h node out = Inr (out @ node_pairs h node)"
    using id by (rule inspect_node_pairs)
  have "map snd (map (map_prod id nodes) node) = map nodes (map snd node)"
    by simp
  then show ?case
    using "1.IH" [OF a sub] a by simp
next
  case (2 h items out)
  from "2.prems" have "list_all (string_ids h) items"
    by (simp add: list_all_iff)
  then show ?case using "2.IH" by simp
next
  case (9 h x xs out)
  from "9.prems" have x: "string_ids h x" and xs: "list_all (string_ids h) xs"
    by simp_all
  have a: "walk h x out = Inr (out @ concat (map (node_pairs h) (nodes x)))"
    using "9.IH"(1) [OF x] .
  show ?case
    using "9.IH"(2) [OF a xs] a by simp
qed simp_all

text \<open>
  Claim C6, as amended. Take a settings catalog in which every identifier that counts
  as present is a string, and in it a mapping whose identifier is a non-empty string,
  with a choice value container (a mapping whose value is not \<^verbatim>\<open>None\<close>) and a collection
  container (a list with a mapping at position \<open>idx\<close> whose value is not \<^verbatim>\<open>None\<close>). Then
  \<^verbatim>\<open>extract_settings_catalog\<close> returns a list in which the pairs appended at that node
  stand together; they are at least two, the pair of the choice value is one of them, and
  so is the pair of the collection entry, under the identifier followed by \<open>[idx]\<close>. The
  claim as stated fails on a document with an identifier that is not a string, where
  \<^verbatim>\<open>simplify_display_value\<close> raises and nothing is returned, and on a node whose
  identifier is the empty string, which line 86 passes over.
\<close>

theorem extract_settings_catalog_independent_carriers:
  assumes "settings = dict_get_default json_doc ''settings'' (JArr [])"
    and "string_ids h settings"
    and "node \<in> set (nodes settings)"
    and "get_or_none node ''settingDefinitionId'' = JStr sdid" and "sdid \<noteq> []"
    and "get_or_none node ''choiceSettingValue'' = JObj choice_block"
    and "get_or_none choice_block ''value'' \<noteq> JNull"
    and "get_or_none node ''simpleSettingCollectionValue'' = JArr collection_block"
    and "idx < length collection_block" and "collection_block ! idx = JObj item"
    and "get_or_none item ''value'' \<noteq> JNull"
  shows "\<exists>before own after.
           extract_settings_catalog h json_doc = Inr (before @ own @ after) \<and>
           inspect_node h node before = Inr (before @ own) \<and>
           2 \<le> length own \<and>
           (JStr sdid, simplify_display_value h sdid (get_or_none choice_block ''value'')) \<in> set own \<and>
           (JStr (sdid @ ''['' @ str_nat idx @ '']''),
            simplify_display_value h sdid (get_or_none item ''value'')) \<in> set own"
proof -
  let ?choice = "(JStr sdid, simplify_display_value h sdid (get_or_none choice_block ''value''))"
  let ?entry = "(JStr (sdid @ ''['' @ str_nat idx @ '']''),
                 simplify_display_value h sdid (get_or_none item ''value''))"
  let ?simple = "carrier_pairs h sdid (get_or_none node ''simpleSettingValue'')"
  let ?coll = "concat (map (collection_pairs h sdid) (enumerate 0 collection_block))"
  have "(idx, JObj item) \<in> set (enumerate 0 collection_block)"
    using assms(9,10) by (simp add: in_set_enumerate_eq)
  moreover have "collection_pairs h sdid (idx, JObj item) = [?entry]"
    using assms(11) by (simp add: collection_pairs_def)
  ultimately have e: "?entry \<in> set ?coll"
    by force
  then have "0 < length ?coll"
    by (simp only: length_pos_if_in_set)
  then have l: "1 \<le> length ?coll"
    by linarith
  have own: "node_pairs h node = [?choice] @ ?simple @ ?coll"
    using assms(4-8) by (simp add: node_pairs_def carrier_pairs_def)
  from assms(3) obtain ns1 ns2 where split: "nodes settings = ns1 @ node # ns2"
    by (auto simp: in_set_conv_decomp)
  let ?before = "concat (map (node_pairs h) ns1)"
  let ?after = "concat (map (node_pairs h) ns2)"
  have "extract_settings_catalog h json_doc = Inr (?before @ node_pairs h node @ ?after)"
    using walk_pairs(1) [OF assms(2), of "[]"] assms(1) split
    by (simp add: extract_settings_catalog_def)
  moreover have "string_id h node"
    using assms(4) by (simp add: string_id_def)
  then have "inspect_node h node ?before = Inr (?before @ node_pairs h node)"
    by (rule inspect_node_pairs)
  moreover have "2 \<le> length (node_pairs h node)"
    using l own by simp
  moreover have "?choice \<in> set (node_pairs h node)" "?entry \<in> set (node_pairs h node)"
    using e own by simp_all
  ultimately show ?thesis
    by blast
qed

theorem extract_settings_catalog_independent_carriers_witness:
  "\<exists>before own after.
     extract_settings_catalog sample_host sample_catalog = Inr (before @ own @ after) \<and>
     2 \<le> length own \<and>
     (JStr ''com.acme.list'', JStr ''True'') \<in> set own \<and>
     (JStr ''com.acme.list[1]'', JStr ''2'') \<in> set own"
proof -
  let ?choice = "[(''value'', JStr ''com.acme.list_true''), (''children'', JArr [])] :: (string \<times> unit json) list"
  let ?coll = "[JObj [(''value'', JInt 1)], JObj [(''value'', JInt 2)]] :: unit json list"
  let ?item = "[(''value'', JInt 2)] :: (string \<times> unit json) list"
  let ?settings = "dict_get_default sample_catalog ''settings'' (JArr [])"
  have 1: "?settings = dict_get_default sample_catalog ''settings'' (JArr [])"
    by simp
  have 2: "string_ids sample_host ?settings"
    by code_simp
  have 3: "sample_node \<in> set (nodes ?settings)"
    by code_simp
  have 4: "get_or_none sample_node ''settingDefinitionId'' = JStr ''com.acme.list''"
    by code_simp
  have 5: "''com.acme.list'' \<noteq> []"
    by simp
  have 6: "get_or_none sample_node ''choiceSettingValue'' = JObj ?choice"
    by code_simp
  have 7: "get_or_none ?choice ''value'' \<noteq> JNull"
    by code_simp
  have 8: "get_or_none sample_node ''simpleSettingCollectionValue'' = JArr ?coll"
    by code_simp
  have 9: "1 < length ?coll"
    by simp
  have 10: "?coll ! 1 = JObj ?item"
    by simp
  have 11: "get_or_none ?item ''value'' \<noteq> JNull"
    by code_simp
  have v: "simplify_display_value sample_host ''com.acme.list'' (get_or_none ?choice ''value'') = JStr ''True''"
    "simplify_display_value sample_host ''com.acme.list'' (get_or_none ?item ''value'') = JStr ''2''"
    "''com.acme.list'' @ ''['' @ str_nat 1 @ '']'' = ''com.acme.list[1]''"
    by code_simp+
  show ?thesis
    using extract_settings_catalog_independent_carriers [OF 1 2 3 4 5 6 7 8 9 10 11] unfolding v
    by blast
qed

theorem extract_settings_catalog_independent_carriers_counterexample:
  "sample_node \<in> set (nodes (dict_get_default sample_number_id_catalog ''settings'' (JArr []))) \<and>
   extract_settings_catalog sample_host sample_number_id_catalog = Inl TypeError \<and>
   get_or_none sample_number_node ''choiceSettingValue'' = get_or_none sample_node ''choiceSettingValue'' \<and>
   get_or_none sample_number_node ''simpleSettingCollectionValue''
     = get_or_none sample_node ''simpleSettingCollectionValue'' \<and>
   extract_settings_catalog sample_host [(''settings'', JArr [JObj sample_number_node])]
     = Inl AttributeError \<and>
   get_or_none sample_empty_id_node ''choiceSettingValue'' = get_or_none sample_node ''choiceSettingValue'' \<and>
   get_or_none sample_empty_id_node ''simpleSettingCollectionValue''
     = get_or_none sample_node ''simpleSettingCollectionValue'' \<and>
   extract_settings_catalog sample_host [(''settings'', JArr [JObj sample_empty_id_node])] = Inr []"
  by code_simp

lemma extract_settings_catalog_example:
  "extract_settings_catalog sample_host sample_catalog =
     Inr [(JStr ''com.acme.list'', JStr ''True''),
          (JStr ''com.acme.list[0]'', JStr ''1''),
          (JStr ''com.acme.list[1]'', JStr ''2'')]"
  by code_simp

section \<open>Properties of the compliance policy extractor\<close>






end
